theory Spec2Isabelle
  imports Complex_Main "HOL-Library.Multiset"
begin

section \<open>Stealth patch synthesizer\<close>

text \<open>
  The configuration the injection script is built from. The integers are 64-bit in the
  source; nothing is computed with them, they are only printed, so they are kept as
  \<open>int\<close>. The device pixel ratio is a float that is only printed as well; it is kept as
  a \<open>real\<close> and its printing is a parameter of the model.
\<close>

record StealthConfig =
  UserAgent :: string
  Platform :: string
  VendorString :: string
  Language :: string
  TimeZoneID :: string
  DevicePixelRatio :: real
  ScreenWidth :: int
  ScreenHeight :: int
  WebGLVendor :: string
  WebGLRenderer :: string
  MaxTouchPoints :: int
  HasMediaDevices :: bool
  HasGeolocation :: bool

definition DefaultStealthConfig :: StealthConfig where
  "DefaultStealthConfig =
     \<lparr> UserAgent = ''Mozilla/5.0 (Windows NT 10.0; Win64; x64) AppleWebKit/537.36 (KHTML, like Gecko) Chrome/120.0.0.0 Safari/537.36'',
       Platform = ''Win32'',
       VendorString = ''Google Inc.'',
       Language = ''en-US'',
       TimeZoneID = ''America/New_York'',
       DevicePixelRatio = 1,
       ScreenWidth = 1920,
       ScreenHeight = 1080,
       WebGLVendor = ''Google Inc. (Google)'',
       WebGLRenderer = ''ANGLE (Intel HD Graphics 630, OpenGL 4.1)'',
       MaxTouchPoints = 0,
       HasMediaDevices = True,
       HasGeolocation = True \<rparr>"

text \<open>The verb \<open>%d\<close> of the formatter on an integer: decimal digits, with a minus sign.\<close>

fun format_nat :: "nat \<Rightarrow> string" where
  "format_nat n =
     (if n < 10 then [char_of (48 + n)]
      else format_nat (n div 10) @ [char_of (48 + n mod 10)])"

definition format_d :: "int \<Rightarrow> string" where
  "format_d i = (if i < 0 then CHR ''-'' # format_nat (nat (- i)) else format_nat (nat i))"

text \<open>
  \<open>BuildStealthScript\<close> is one call of the formatter on a constant template and fifteen
  arguments taken from the configuration. The template holds exactly fifteen verbs, so it
  is sixteen pieces of constant JavaScript text with one verb between two neighbours; piece
  \<open>i\<close> is \<open>js i\<close>. The verbs and their arguments, in the order of the source:
  \<open>%s\<close> UserAgent, \<open>%s\<close> Platform, \<open>%s\<close> VendorString, \<open>%s\<close> Language (languages),
  \<open>%s\<close> Language (language), \<open>%s\<close> WebGLVendor, \<open>%s\<close> WebGLRenderer,
  \<open>%d\<close> MaxTouchPoints, \<open>%d\<close> ScreenWidth, \<open>%d\<close> ScreenHeight, \<open>%d\<close> ScreenWidth,
  \<open>%d\<close> ScreenHeight, \<open>%.1f\<close> DevicePixelRatio, \<open>%s\<close> TimeZoneID, \<open>%s\<close> Language.
  The verb \<open>%s\<close> prints a string as it is; \<open>format_f1\<close> stands for the verb \<open>%.1f\<close>.
  The function reads nothing but its argument: no clock, no random source, no global.
\<close>

definition BuildStealthScript :: "(nat \<Rightarrow> string) \<Rightarrow> (real \<Rightarrow> string) \<Rightarrow> StealthConfig \<Rightarrow> string" where
  "BuildStealthScript js format_f1 config =
     js 0 @ UserAgent config @
     js 1 @ Platform config @
     js 2 @ VendorString config @
     js 3 @ Language config @
     js 4 @ Language config @
     js 5 @ WebGLVendor config @
     js 6 @ WebGLRenderer config @
     js 7 @ format_d (MaxTouchPoints config) @
     js 8 @ format_d (ScreenWidth config) @
     js 9 @ format_d (ScreenHeight config) @
     js 10 @ format_d (ScreenWidth config) @
     js 11 @ format_d (ScreenHeight config) @
     js 12 @ format_f1 (DevicePixelRatio config) @
     js 13 @ TimeZoneID config @
     js 14 @ Language config @
     js 15"

section \<open>Detection classifier\<close>

record TestResult =
  URL :: string
  Title :: string
  ContentLength :: int
  HasCloudflare :: bool
  Success :: bool
  ErrorMessage :: string
  ContentSnippet :: string

text \<open>
  Strings are byte sequences, and \<open>length\<close> is the byte count the source's \<open>len\<close>
  gives. The library's \<open>ToLower\<close> has two paths. A string of ASCII bytes only is mapped
  byte by byte, \<open>A\<close> to \<open>Z\<close> moved to \<open>a\<close> to \<open>z\<close>. Any other string goes through the
  Unicode mapping of the library, which is the parameter \<open>unicode_lower\<close> of the model.
\<close>

definition is_ascii :: "char \<Rightarrow> bool" where
  "is_ascii c \<longleftrightarrow> (of_char c :: nat) < 128"

definition lower_byte :: "char \<Rightarrow> char" where
  "lower_byte c =
     (if (65::nat) \<le> of_char c \<and> (of_char c :: nat) \<le> 90
      then char_of ((of_char c :: nat) + 32) else c)"

definition ToLower :: "(string \<Rightarrow> string) \<Rightarrow> string \<Rightarrow> string" where
  "ToLower unicode_lower s =
     (if list_all is_ascii s then map lower_byte s else unicode_lower s)"

fun HasPrefix :: "string \<Rightarrow> string \<Rightarrow> bool" where
  "HasPrefix s [] = True"
| "HasPrefix [] (p # ps) = False"
| "HasPrefix (c # cs) (p # ps) = (c = p \<and> HasPrefix cs ps)"

text \<open>\<open>Contains s substr\<close>: \<open>substr\<close> occurs in \<open>s\<close> at some offset.\<close>

fun Contains :: "string \<Rightarrow> string \<Rightarrow> bool" where
  "Contains [] substr = (substr = [])"
| "Contains (c # cs) substr = (HasPrefix (c # cs) substr \<or> Contains cs substr)"

text \<open>
  What is used of the Unicode path of \<open>ToLower\<close>: an ASCII byte is a character of its
  own wherever it stands, so a run of ASCII bytes inside any string comes out of the
  mapping as the same run, lower-cased byte by byte.
\<close>

definition lowers_ascii_runs :: "(string \<Rightarrow> string) \<Rightarrow> bool" where
  "lowers_ascii_runs unicode_lower \<longleftrightarrow>
     (\<forall>pre mid post. list_all is_ascii mid \<longrightarrow>
        Contains (unicode_lower (pre @ mid @ post)) (map lower_byte mid))"

definition cfIndicators :: "string list" where
  "cfIndicators =
     [''cloudflare'',
      ''challenge'',
      ''checking your browser'',
      ''error 1020'',
      ''please wait'',
      ''ray id'',
      ''cf-challenge'',
      ''cf-chl'',
      ''just a moment'']"

text \<open>
  The loop over the indicators: the body is lower-cased and searched for each indicator in
  turn, and the first hit sets the flag and leaves the loop. The title is not searched.
\<close>

fun scan_indicators :: "(string \<Rightarrow> string) \<Rightarrow> string \<Rightarrow> string list \<Rightarrow> bool" where
  "scan_indicators unicode_lower bodyHTML [] = False"
| "scan_indicators unicode_lower bodyHTML (indicator # rest) =
     (if Contains (ToLower unicode_lower bodyHTML) indicator then True
      else scan_indicators unicode_lower bodyHTML rest)"

text \<open>
  \<open>TestURL\<close> after the browser run. The run itself is outside the model: what it hands
  back is an error (\<open>None\<close> for none, otherwise its text), the page title and the markup of
  the body. With an error the function returns before it classifies anything. The write
  of the screenshot file has no part in the result and is left out.
\<close>

definition TestURL :: "(string \<Rightarrow> string) \<Rightarrow> string \<Rightarrow> string option \<Rightarrow> string \<Rightarrow> string \<Rightarrow> TestResult" where
  "TestURL unicode_lower testURL err title bodyHTML =
     (let result = \<lparr> URL = testURL, Title = title, ContentLength = int (length bodyHTML),
                      HasCloudflare = False, Success = False, ErrorMessage = [],
                      ContentSnippet = [] \<rparr>
      in case err of
           Some errStr \<Rightarrow>
             if Contains errStr ''ERR_HTTP2_PROTOCOL_ERROR''
             then result\<lparr>ErrorMessage := ''HTTP/2 protocol error (site may block automated access)''\<rparr>
             else result\<lparr>ErrorMessage := errStr\<rparr>
         | None \<Rightarrow>
             let result = result\<lparr>HasCloudflare := scan_indicators unicode_lower bodyHTML cfIndicators\<rparr>;
                 result = (if \<not> HasCloudflare result \<and> length bodyHTML > 500 \<and> length title > 0
                           then result\<lparr>Success := True\<rparr> else result)
             in if length bodyHTML > 300
                then result\<lparr>ContentSnippet := take 300 bodyHTML\<rparr>
                else result\<lparr>ContentSnippet := bodyHTML\<rparr>)"

section \<open>Result aggregator\<close>

text \<open>
  The summary loop of \<open>main\<close> keeps three counters and tests each result in a fixed
  order: an error message first, then the challenge flag, then success. A result that is
  none of the three is printed with a question mark and moves no counter.
\<close>

record Counts =
  successCount :: int
  blockCount :: int
  errorCount :: int

definition count_result :: "Counts \<Rightarrow> TestResult \<Rightarrow> Counts" where
  "count_result c result =
     (if ErrorMessage result \<noteq> [] then c\<lparr>errorCount := errorCount c + 1\<rparr>
      else if HasCloudflare result then c\<lparr>blockCount := blockCount c + 1\<rparr>
      else if Success result then c\<lparr>successCount := successCount c + 1\<rparr>
      else c)"

definition summarize :: "TestResult list \<Rightarrow> Counts" where
  "summarize results =
     foldl count_result \<lparr> successCount = 0, blockCount = 0, errorCount = 0 \<rparr> results"

text \<open>The results each counter counts, and those that move no counter.\<close>

definition counted_error :: "TestResult \<Rightarrow> bool" where
  "counted_error result \<longleftrightarrow> ErrorMessage result \<noteq> []"

definition counted_block :: "TestResult \<Rightarrow> bool" where
  "counted_block result \<longleftrightarrow> ErrorMessage result = [] \<and> HasCloudflare result"

definition counted_success :: "TestResult \<Rightarrow> bool" where
  "counted_success result \<longleftrightarrow>
     ErrorMessage result = [] \<and> \<not> HasCloudflare result \<and> Success result"

definition indeterminate :: "TestResult \<Rightarrow> bool" where
  "indeterminate result \<longleftrightarrow>
     ErrorMessage result = [] \<and> \<not> HasCloudflare result \<and> \<not> Success result"

section \<open>Fingerprint profile registry\<close>

text \<open>
  The browser fingerprint of the source: a struct of strings and 64-bit integers. No
  arithmetic is done on the integer fields, so they are kept as \<open>int\<close>. Several field
  names are those of \<open>StealthConfig\<close>; from here on the short names are the fields of
  \<open>BrowserProfile\<close>.
\<close>

record BrowserProfile =
  Name :: string
  UserAgent :: string
  Platform :: string
  VendorString :: string
  Language :: string
  TimeZone :: string
  ScreenWidth :: int
  ScreenHeight :: int
  WebGLVendor :: string
  WebGLRenderer :: string
  MaxTouchPoints :: int
  DeviceMemory :: int
  HardwareConcurrency :: int

text \<open>The fixed catalog, in the order of the source.\<close>

definition StealthProfiles :: "BrowserProfile list" where
  "StealthProfiles =
   [\<lparr> Name = ''Windows Chrome 120'',
      UserAgent = ''Mozilla/5.0 (Windows NT 10.0; Win64; x64) AppleWebKit/537.36 (KHTML, like Gecko) Chrome/120.0.0.0 Safari/537.36'',
      Platform = ''Win32'', VendorString = ''Google Inc.'', Language = ''en-US'',
      TimeZone = ''America/New_York'', ScreenWidth = 1920, ScreenHeight = 1080,
      WebGLVendor = ''Google Inc. (Google)'',
      WebGLRenderer = ''ANGLE (Intel HD Graphics 630, OpenGL 4.1)'',
      MaxTouchPoints = 0, DeviceMemory = 8, HardwareConcurrency = 8 \<rparr>,
    \<lparr> Name = ''MacOS Chrome 120'',
      UserAgent = ''Mozilla/5.0 (Macintosh; Intel Mac OS X 10_15_7) AppleWebKit/537.36 (KHTML, like Gecko) Chrome/120.0.0.0 Safari/537.36'',
      Platform = ''MacIntel'', VendorString = ''Google Inc.'', Language = ''en-US'',
      TimeZone = ''America/Los_Angeles'', ScreenWidth = 1440, ScreenHeight = 900,
      WebGLVendor = ''Apple Inc.'',
      WebGLRenderer = ''Apple M1'',
      MaxTouchPoints = 0, DeviceMemory = 16, HardwareConcurrency = 8 \<rparr>,
    \<lparr> Name = ''MacOS M1 Chrome 120'',
      UserAgent = ''Mozilla/5.0 (Macintosh; Intel Mac OS X 10_15_7) AppleWebKit/537.36 (KHTML, like Gecko) Chrome/120.0.0.0 Safari/537.36'',
      Platform = ''MacIntel'', VendorString = ''Google Inc.'', Language = ''en-US'',
      TimeZone = ''America/Denver'', ScreenWidth = 1680, ScreenHeight = 1050,
      WebGLVendor = ''Apple Inc.'',
      WebGLRenderer = ''ANGLE (Apple, Apple M1, OpenGL 4.1)'',
      MaxTouchPoints = 0, DeviceMemory = 16, HardwareConcurrency = 8 \<rparr>,
    \<lparr> Name = ''Linux Chrome 120'',
      UserAgent = ''Mozilla/5.0 (X11; Linux x86_64) AppleWebKit/537.36 (KHTML, like Gecko) Chrome/120.0.0.0 Safari/537.36'',
      Platform = ''Linux x86_64'', VendorString = ''Google Inc.'', Language = ''en-US'',
      TimeZone = ''Europe/London'', ScreenWidth = 1920, ScreenHeight = 1080,
      WebGLVendor = ''Google Inc. (Google)'',
      WebGLRenderer = ''ANGLE (Intel HD Graphics, OpenGL 4.1)'',
      MaxTouchPoints = 0, DeviceMemory = 8, HardwareConcurrency = 4 \<rparr>,
    \<lparr> Name = ''Windows Edge 120'',
      UserAgent = ''Mozilla/5.0 (Windows NT 10.0; Win64; x64) AppleWebKit/537.36 (KHTML, like Gecko) Chrome/120.0.0.0 Safari/537.36 Edg/120.0.0.0'',
      Platform = ''Win32'', VendorString = ''Google Inc.'', Language = ''en-US'',
      TimeZone = ''America/Chicago'', ScreenWidth = 1920, ScreenHeight = 1080,
      WebGLVendor = ''Google Inc. (Google)'',
      WebGLRenderer = ''ANGLE (NVIDIA GeForce RTX 3090, OpenGL 4.1)'',
      MaxTouchPoints = 0, DeviceMemory = 16, HardwareConcurrency = 12 \<rparr>,
    \<lparr> Name = ''Windows Firefox 121'',
      UserAgent = ''Mozilla/5.0 (Windows NT 10.0; Win64; x64; rv:121.0) Gecko/20100101 Firefox/121.0'',
      Platform = ''Win32'', VendorString = '''', Language = ''en-US'',
      TimeZone = ''America/New_York'', ScreenWidth = 1920, ScreenHeight = 1080,
      WebGLVendor = ''Google Inc. (Google)'',
      WebGLRenderer = ''ANGLE (NVIDIA GeForce GTX 1080, OpenGL 4.1)'',
      MaxTouchPoints = 0, DeviceMemory = 8, HardwareConcurrency = 8 \<rparr>,
    \<lparr> Name = ''MacOS Firefox 121'',
      UserAgent = ''Mozilla/5.0 (Macintosh; Intel Mac OS X 10.15; rv:121.0) Gecko/20100101 Firefox/121.0'',
      Platform = ''MacIntel'', VendorString = '''', Language = ''en-US'',
      TimeZone = ''America/Los_Angeles'', ScreenWidth = 1440, ScreenHeight = 900,
      WebGLVendor = ''Apple Inc.'',
      WebGLRenderer = ''Apple M1'',
      MaxTouchPoints = 0, DeviceMemory = 16, HardwareConcurrency = 8 \<rparr>,
    \<lparr> Name = ''Linux Firefox 121'',
      UserAgent = ''Mozilla/5.0 (X11; Linux x86_64; rv:121.0) Gecko/20100101 Firefox/121.0'',
      Platform = ''Linux x86_64'', VendorString = '''', Language = ''en-US'',
      TimeZone = ''Europe/Berlin'', ScreenWidth = 1920, ScreenHeight = 1080,
      WebGLVendor = ''Google Inc. (Google)'',
      WebGLRenderer = ''ANGLE (Intel Iris Xe Graphics, OpenGL 4.1)'',
      MaxTouchPoints = 0, DeviceMemory = 8, HardwareConcurrency = 4 \<rparr>,
    \<lparr> Name = ''Windows Chrome 121'',
      UserAgent = ''Mozilla/5.0 (Windows NT 10.0; Win64; x64) AppleWebKit/537.36 (KHTML, like Gecko) Chrome/121.0.0.0 Safari/537.36'',
      Platform = ''Win32'', VendorString = ''Google Inc.'', Language = ''en-US'',
      TimeZone = ''America/New_York'', ScreenWidth = 1920, ScreenHeight = 1080,
      WebGLVendor = ''Google Inc. (Google)'',
      WebGLRenderer = ''ANGLE (Intel HD Graphics 630, OpenGL 4.1)'',
      MaxTouchPoints = 0, DeviceMemory = 8, HardwareConcurrency = 8 \<rparr>,
    \<lparr> Name = ''MacOS Chrome 121'',
      UserAgent = ''Mozilla/5.0 (Macintosh; Intel Mac OS X 10_15_7) AppleWebKit/537.36 (KHTML, like Gecko) Chrome/121.0.0.0 Safari/537.36'',
      Platform = ''MacIntel'', VendorString = ''Google Inc.'', Language = ''en-US'',
      TimeZone = ''America/Los_Angeles'', ScreenWidth = 1440, ScreenHeight = 900,
      WebGLVendor = ''Apple Inc.'',
      WebGLRenderer = ''Apple M1'',
      MaxTouchPoints = 0, DeviceMemory = 16, HardwareConcurrency = 8 \<rparr>]"

text \<open>
  \<open>GetProfileByName\<close> walks the catalog and returns the first profile whose name is
  the one asked for; when the loop ends without a match it returns the entry at index 0.
\<close>

definition GetProfileByName :: "string \<Rightarrow> BrowserProfile" where
  "GetProfileByName name =
     (case find (\<lambda>profile. Name profile = name) StealthProfiles of
        Some profile \<Rightarrow> profile
      | None \<Rightarrow> StealthProfiles ! 0)"

definition GetAllProfiles :: "BrowserProfile list" where
  "GetAllProfiles = StealthProfiles"

text \<open>
  \<open>GetProfilesByPlatform\<close> appends, in catalog order, every profile whose platform
  field equals the argument; the result of a loop that never appends is the empty slice.
\<close>

definition GetProfilesByPlatform :: "string \<Rightarrow> BrowserProfile list" where
  "GetProfilesByPlatform platform = filter (\<lambda>p. Platform p = platform) StealthProfiles"

section \<open>Agents and their headers\<close>

text \<open>
  A map of the source is a reference: two variables can name the same map, and a write
  through one is seen through the other. So the maps from header name to value live in
  a store, a reference is \<open>NilMap\<close> or the address of a cell, and a new map takes the
  next unused address. A read of the nil map finds no entry.
\<close>

datatype mapref = NilMap | MapRef nat

record store =
  cells :: "nat \<rightharpoonup> (string \<rightharpoonup> string)"
  next_ref :: nat

definition make_map :: "(string \<rightharpoonup> string) \<Rightarrow> store \<Rightarrow> nat \<times> store" where
  "make_map entries h =
     (next_ref h, h\<lparr>cells := (cells h)(next_ref h \<mapsto> entries), next_ref := next_ref h + 1\<rparr>)"

fun contents :: "store \<Rightarrow> mapref \<Rightarrow> (string \<rightharpoonup> string)" where
  "contents h NilMap = Map.empty"
| "contents h (MapRef r) = (case cells h r of Some m \<Rightarrow> m | None \<Rightarrow> Map.empty)"

definition map_assign :: "nat \<Rightarrow> string \<Rightarrow> string \<Rightarrow> store \<Rightarrow> store" where
  "map_assign r k v h = h\<lparr>cells := (cells h)(r \<mapsto> (contents h (MapRef r))(k \<mapsto> v))\<rparr>"

text \<open>
  The loop \<open>for k, v := range src { dst[k] = v }\<close>. The runtime visits the keys of a map
  in an order of its own choosing, which differs from run to run; the order is the list
  \<open>order\<close>, and \<open>iteration_order\<close> says that a list is one the runtime may choose:
  every key of the map, once.
\<close>

fun range_assign :: "string list \<Rightarrow> mapref \<Rightarrow> nat \<Rightarrow> store \<Rightarrow> store" where
  "range_assign [] src dst h = h"
| "range_assign (k # order) src dst h =
     range_assign order src dst
       (case contents h src k of Some v \<Rightarrow> map_assign dst k v h | None \<Rightarrow> h)"

definition iteration_order :: "'k list \<Rightarrow> ('k \<rightharpoonup> 'v) \<Rightarrow> bool" where
  "iteration_order order m \<longleftrightarrow> distinct order \<and> set order = dom m"

text \<open>The time of the last activity is not read by anything modelled here; it is a number.\<close>

record AIAgent =
  ID :: string
  Profile :: BrowserProfile
  Headers :: mapref
  Cookies :: mapref
  RateLimit :: int
  Delay :: int
  RetryCount :: int
  ProxyURL :: string
  LastActivity :: int

definition generateRealisticHeaders :: "BrowserProfile \<Rightarrow> store \<Rightarrow> mapref \<times> store" where
  \<open>generateRealisticHeaders profile h =
     (let (headers, h1) =
            make_map
              [''User-Agent'' \<mapsto> UserAgent profile,
               ''Accept'' \<mapsto> ''text/html,application/xhtml+xml,application/xml;q=0.9,image/webp,image/apng,*/*;q=0.8,application/signed-exchange;v=b3;q=0.7'',
               ''Accept-Language'' \<mapsto> Language profile,
               ''Accept-Encoding'' \<mapsto> ''gzip, deflate, br'',
               ''Cache-Control'' \<mapsto> ''max-age=0'',
               ''Sec-Fetch-Dest'' \<mapsto> ''document'',
               ''Sec-Fetch-Mode'' \<mapsto> ''navigate'',
               ''Sec-Fetch-Site'' \<mapsto> ''none'',
               ''Sec-Fetch-User'' \<mapsto> ''?1'',
               ''Upgrade-Insecure-Requests'' \<mapsto> ''1'',
               ''Sec-Ch-Ua'' \<mapsto> ''"Not_A Brand";v="8", "Chromium";v="120", "Google Chrome";v="120"'',
               ''Sec-Ch-Ua-Mobile'' \<mapsto> ''?0'',
               ''Sec-Ch-Ua-Platform'' \<mapsto> ''"Windows"'',
               ''DNT'' \<mapsto> ''1'',
               ''Connection'' \<mapsto> ''keep-alive'',
               ''Pragma'' \<mapsto> ''no-cache''] h
      in if Platform profile = ''MacIntel''
         then (MapRef headers, map_assign headers ''Sec-Ch-Ua-Platform'' ''"macOS"'' h1)
         else if Platform profile = ''Linux x86_64''
         then (MapRef headers, map_assign headers ''Sec-Ch-Ua-Platform'' ''"Linux"'' h1)
         else (MapRef headers, h1))\<close>

text \<open>
  \<open>NewAIAgentWithProfile\<close>; \<open>drawn\<close> is the number the random source gave for the
  delay, between 0 and 4999.
\<close>

definition NewAIAgentWithProfile :: "string \<Rightarrow> BrowserProfile \<Rightarrow> int \<Rightarrow> store \<Rightarrow> AIAgent \<times> store" where
  "NewAIAgentWithProfile ident profile drawn h =
     (let (headers, h1) = generateRealisticHeaders profile h;
          (cookies, h2) = make_map Map.empty h1
      in (\<lparr> ID = ident, Profile = profile, Headers = headers, Cookies = MapRef cookies,
             RateLimit = 1, Delay = drawn + 2000, RetryCount = 3, ProxyURL = [],
             LastActivity = 0 \<rparr>, h2))"

text \<open>
  \<open>HeadersWithDefaults\<close>: a new map, then the defaults of the agent copied into it, then
  the custom headers copied over them. \<open>order1\<close> and \<open>order2\<close> are the orders in which
  the runtime visits the two maps.
\<close>

definition HeadersWithDefaults :: "string list \<Rightarrow> string list \<Rightarrow> AIAgent \<Rightarrow> mapref \<Rightarrow> store \<Rightarrow> mapref \<times> store" where
  "HeadersWithDefaults order1 order2 a customHeaders h =
     (let (merged, h1) = make_map Map.empty h;
          h2 = range_assign order1 (Headers a) merged h1;
          h3 = range_assign order2 customHeaders merged h2
      in (MapRef merged, h3))"

text \<open>
  A store is well formed when every cell in use lies below the next address, and a
  reference is valid in a store when it is nil or names a cell in use.
\<close>

definition store_ok :: "store \<Rightarrow> bool" where
  "store_ok h \<longleftrightarrow> (\<forall>r \<in> dom (cells h). r < next_ref h)"

fun valid_ref :: "store \<Rightarrow> mapref \<Rightarrow> bool" where
  "valid_ref h NilMap = True"
| "valid_ref h (MapRef r) = (r \<in> dom (cells h))"

section \<open>Agent pool\<close>

text \<open>
  The pool maps an agent's identifier to the agent. The source stores pointers to agents;
  \<open>AddAgent\<close> reads the identifier through the pointer before it stores it, so a pointer
  in a pool built by \<open>AddAgent\<close> is never nil, and a stored pointer is modelled by the
  agent it points to. The size of the map is the number of its keys.
\<close>

record BrowserPool =
  Agents :: "string \<rightharpoonup> AIAgent"
  MaxAgents :: int
  RateLimiter :: "string \<rightharpoonup> int"

datatype error = PoolFull int

definition NewBrowserPool :: "int \<Rightarrow> BrowserPool" where
  "NewBrowserPool maxAgents =
     \<lparr> Agents = Map.empty, MaxAgents = maxAgents, RateLimiter = Map.empty \<rparr>"

definition GetPoolSize :: "BrowserPool \<Rightarrow> int" where
  "GetPoolSize bp = int (card (dom (Agents bp)))"

text \<open>
  \<open>AddAgent\<close> returns the error, \<open>None\<close> for none, and the pool as it is after the call.
  The error carries the number printed in its message.
\<close>

definition AddAgent :: "BrowserPool \<Rightarrow> AIAgent \<Rightarrow> error option \<times> BrowserPool" where
  "AddAgent bp agent =
     (if int (card (dom (Agents bp))) \<ge> MaxAgents bp
      then (Some (PoolFull (MaxAgents bp)), bp)
      else (None, bp\<lparr>Agents := (Agents bp)(ID agent \<mapsto> agent)\<rparr>))"

definition GetAgent :: "BrowserPool \<Rightarrow> string \<Rightarrow> AIAgent option" where
  "GetAgent bp ident = Agents bp ident"

definition RemoveAgent :: "BrowserPool \<Rightarrow> string \<Rightarrow> BrowserPool" where
  "RemoveAgent bp ident = bp\<lparr>Agents := (Agents bp)(ident := None)\<rparr>"

text \<open>
  The loop of \<open>GetRandomAgent\<close>: it visits the agents in the order of the runtime and
  counts \<open>idx\<close> down; the agent at which \<open>idx\<close> is 0 is returned. Leaving the loop
  returns nil, which is \<open>None\<close>.
\<close>

fun pick_agent :: "string list \<Rightarrow> (string \<rightharpoonup> AIAgent) \<Rightarrow> int \<Rightarrow> AIAgent option" where
  "pick_agent [] agents idx = None"
| "pick_agent (k # order) agents idx =
     (if idx = 0 then agents k else pick_agent order agents (idx - 1))"

text \<open>
  \<open>GetRandomAgent\<close>; \<open>order\<close> is the order in which the runtime visits the map and
  \<open>drawn\<close> the number the random source gives when asked for one below the size of the
  pool. The random source is asked only when the pool is not empty.
\<close>

definition GetRandomAgent :: "string list \<Rightarrow> int \<Rightarrow> BrowserPool \<Rightarrow> AIAgent option" where
  "GetRandomAgent order drawn bp =
     (if card (dom (Agents bp)) = 0 then None
      else pick_agent order (Agents bp) drawn)"

section \<open>Properties of the synthesizer\<close>

text \<open>
  Claim C8. The script is a function of the configuration alone: equal configurations
  give the same script, byte for byte. More precisely the script is fixed by the eleven
  fields the template prints, so two configurations that agree on them give the same
  script even where they differ in the two flags the template does not print.
\<close>

theorem BuildStealthScript_deterministic:
  "(config1 = config2 \<longrightarrow>
      BuildStealthScript js format_f1 config1 = BuildStealthScript js format_f1 config2) \<and>
   (StealthConfig.UserAgent config1 = StealthConfig.UserAgent config2 \<and>
    StealthConfig.Platform config1 = StealthConfig.Platform config2 \<and>
    StealthConfig.VendorString config1 = StealthConfig.VendorString config2 \<and>
    StealthConfig.Language config1 = StealthConfig.Language config2 \<and>
    TimeZoneID config1 = TimeZoneID config2 \<and>
    DevicePixelRatio config1 = DevicePixelRatio config2 \<and>
    StealthConfig.ScreenWidth config1 = StealthConfig.ScreenWidth config2 \<and>
    StealthConfig.ScreenHeight config1 = StealthConfig.ScreenHeight config2 \<and>
    StealthConfig.WebGLVendor config1 = StealthConfig.WebGLVendor config2 \<and>
    StealthConfig.WebGLRenderer config1 = StealthConfig.WebGLRenderer config2 \<and>
    StealthConfig.MaxTouchPoints config1 = StealthConfig.MaxTouchPoints config2 \<longrightarrow>
      BuildStealthScript js format_f1 config1 = BuildStealthScript js format_f1 config2)"
  by (simp add: BuildStealthScript_def)

text \<open>
  The script of the default configuration, with every piece of JavaScript text replaced
  by a bar, and the same script for the default configuration with one flag changed.
\<close>

lemma BuildStealthScript_default:
  "BuildStealthScript (\<lambda>i. ''|'') (\<lambda>r. ''1.0'') DefaultStealthConfig =
     ''|Mozilla/5.0 (Windows NT 10.0; Win64; x64) AppleWebKit/537.36 (KHTML, like Gecko) Chrome/120.0.0.0 Safari/537.36|Win32|Google Inc.|en-US|en-US|Google Inc. (Google)|ANGLE (Intel HD Graphics 630, OpenGL 4.1)|0|1920|1080|1920|1080|1.0|America/New_York|en-US|''"
proof -
  have d: "format_d 0 = ''0''" "format_d 1920 = ''1920''" "format_d 1080 = ''1080''"
    by code_simp+
  show ?thesis by (simp add: BuildStealthScript_def DefaultStealthConfig_def d)
qed

theorem BuildStealthScript_deterministic_witness:
  "BuildStealthScript (\<lambda>i. ''|'') (\<lambda>r. ''1.0'') (DefaultStealthConfig\<lparr>HasGeolocation := False\<rparr>) =
   BuildStealthScript (\<lambda>i. ''|'') (\<lambda>r. ''1.0'') DefaultStealthConfig \<and>
   BuildStealthScript (\<lambda>i. ''|'') (\<lambda>r. ''1.0'') DefaultStealthConfig =
     ''|Mozilla/5.0 (Windows NT 10.0; Win64; x64) AppleWebKit/537.36 (KHTML, like Gecko) Chrome/120.0.0.0 Safari/537.36|Win32|Google Inc.|en-US|en-US|Google Inc. (Google)|ANGLE (Intel HD Graphics 630, OpenGL 4.1)|0|1920|1080|1920|1080|1.0|America/New_York|en-US|''"
proof -
  from BuildStealthScript_deterministic
    [of "DefaultStealthConfig\<lparr>HasGeolocation := False\<rparr>" DefaultStealthConfig
        "\<lambda>i. ''|''" "\<lambda>r. ''1.0''"]
  have "BuildStealthScript (\<lambda>i. ''|'') (\<lambda>r. ''1.0'') (DefaultStealthConfig\<lparr>HasGeolocation := False\<rparr>) =
   BuildStealthScript (\<lambda>i. ''|'') (\<lambda>r. ''1.0'') DefaultStealthConfig"
    by simp
  with BuildStealthScript_default show ?thesis by (intro conjI)
qed

section \<open>Properties of the classifier\<close>

lemma HasPrefix_iff: "HasPrefix s p \<longleftrightarrow> (\<exists>post. s = p @ post)"
  by (induction s p rule: HasPrefix.induct) auto

lemma Contains_iff: "Contains s substr \<longleftrightarrow> (\<exists>pre post. s = pre @ substr @ post)"
proof (induction s)
  case Nil
  then show ?case by auto
next
  case (Cons c cs)
  show ?case
  proof
    assume "Contains (c # cs) substr"
    then consider "HasPrefix (c # cs) substr" | "Contains cs substr" by auto
    then show "\<exists>pre post. c # cs = pre @ substr @ post"
    proof cases
      case 1
      then obtain post where "c # cs = substr @ post" by (auto simp: HasPrefix_iff)
      then have "c # cs = [] @ substr @ post" by simp
      then show ?thesis by blast
    next
      case 2
      with Cons.IH obtain pre post where "cs = pre @ substr @ post" by blast
      then have "c # cs = (c # pre) @ substr @ post" by simp
      then show ?thesis by blast
    qed
  next
    assume "\<exists>pre post. c # cs = pre @ substr @ post"
    then obtain pre post where eq: "c # cs = pre @ substr @ post" by blast
    show "Contains (c # cs) substr"
    proof (cases pre)
      case Nil
      with eq have "HasPrefix (c # cs) substr" by (auto simp: HasPrefix_iff)
      then show ?thesis by simp
    next
      case (Cons d pre')
      with eq have "cs = pre' @ substr @ post" by simp
      with Cons.IH have "Contains cs substr" by blast
      then show ?thesis by simp
    qed
  qed
qed

lemma scan_indicators_iff:
  "scan_indicators ul body inds \<longleftrightarrow> (\<exists>i \<in> set inds. Contains (ToLower ul body) i)"
  by (induction inds) auto

lemma TestURL_HasCloudflare:
  "HasCloudflare (TestURL ul u None t b) = scan_indicators ul b cfIndicators"
  by (simp add: TestURL_def Let_def)

lemma TestURL_Success:
  "Success (TestURL ul u None t b) \<longleftrightarrow>
     \<not> scan_indicators ul b cfIndicators \<and> length b > 500 \<and> length t > 0"
  by (simp add: TestURL_def Let_def)

lemma is_ascii_lower_byte: "is_ascii (lower_byte c) \<Longrightarrow> is_ascii c"
  by (auto simp: is_ascii_def lower_byte_def split: if_splits)

lemma is_ascii_map_lower: "list_all is_ascii (map lower_byte s) \<Longrightarrow> list_all is_ascii s"
  by (induction s) (auto dest: is_ascii_lower_byte)

lemma lowers_ascii_runs_bytewise: "lowers_ascii_runs (map lower_byte)"
  unfolding lowers_ascii_runs_def Contains_iff by auto

lemma ToLower_finds_any_case:
  assumes ul: "lowers_ascii_runs ul"
    and body: "body = pre @ mid @ post"
    and mid: "map lower_byte mid = sig"
    and sig: "list_all is_ascii sig"
  shows "Contains (ToLower ul body) sig"
proof (cases "list_all is_ascii body")
  case True
  then have "ToLower ul body = map lower_byte pre @ sig @ map lower_byte post"
    using body mid by (simp add: ToLower_def)
  then show ?thesis unfolding Contains_iff by blast
next
  case False
  from sig mid have "list_all is_ascii mid" by (auto intro: is_ascii_map_lower)
  with ul have "Contains (ul (pre @ mid @ post)) (map lower_byte mid)"
    unfolding lowers_ascii_runs_def by blast
  then have "Contains (ul body) sig" using body mid by simp
  moreover have "ToLower ul body = ul body" using False by (simp only: ToLower_def if_False)
  ultimately show ?thesis by simp
qed

lemma checking_your_browser_ascii: "list_all is_ascii ''checking your browser''"
  by (simp add: is_ascii_def)

lemma checking_your_browser_indicator: "''checking your browser'' \<in> set cfIndicators"
  by (simp add: cfIndicators_def)

lemma Contains_replicate_other: "x \<noteq> y \<Longrightarrow> \<not> Contains (replicate n x) (y # s)"
  by (induction n) auto

lemma ToLower_replicate:
  "is_ascii x \<Longrightarrow> lower_byte x = x \<Longrightarrow> ToLower ul (replicate n x) = replicate n x"
  by (simp add: ToLower_def list_all_iff map_replicate)

lemma letter_x_ascii: "is_ascii CHR ''x''"
  by (simp add: is_ascii_def)

lemma letter_x_lower: "lower_byte CHR ''x'' = CHR ''x''"
  by (simp add: lower_byte_def)

lemma scan_replicate_x: "\<not> scan_indicators ul (replicate n CHR ''x'') cfIndicators"
  by (simp add: ToLower_replicate [OF letter_x_ascii letter_x_lower] cfIndicators_def
      Contains_replicate_other)

lemma cfIndicators_ascii: "indicator \<in> set cfIndicators \<Longrightarrow> list_all is_ascii indicator"
  by (auto simp: cfIndicators_def is_ascii_def)

lemma TestURL_flagged:
  assumes "indicator \<in> set cfIndicators" and "Contains (ToLower ul bodyHTML) indicator"
  shows "HasCloudflare (TestURL ul testURL None title bodyHTML) \<and>
         \<not> Success (TestURL ul testURL None title bodyHTML)"
proof -
  from assms have "scan_indicators ul bodyHTML cfIndicators"
    unfolding scan_indicators_iff by blast
  then show ?thesis by (simp add: TestURL_HasCloudflare TestURL_Success)
qed

text \<open>
  Claim C1, as the code has it. The classifier lower-cases the body and looks for each
  indicator in the lower-cased body only. If any indicator of the fixed list occurs there,
  the result has the challenge flag set and is not a success, whatever the title and the
  length of the body. An indicator occurs there whenever some piece of the body, with its
  letters in any mix of upper and lower case, is the indicator once lower-cased. In
  particular a body that holds "checking your browser" in any case gets the flag and no
  success.
\<close>

theorem TestURL_challenge_in_body:
  "((\<exists>indicator \<in> set cfIndicators. Contains (ToLower ul bodyHTML) indicator) \<longrightarrow>
      HasCloudflare (TestURL ul testURL None title bodyHTML) \<and>
      \<not> Success (TestURL ul testURL None title bodyHTML)) \<and>
   (lowers_ascii_runs ul \<and> bodyHTML = pre @ mid @ post \<and>
      map lower_byte mid \<in> set cfIndicators \<longrightarrow>
      HasCloudflare (TestURL ul testURL None title bodyHTML) \<and>
      \<not> Success (TestURL ul testURL None title bodyHTML)) \<and>
   (lowers_ascii_runs ul \<and> bodyHTML = pre @ mid @ post \<and>
      map lower_byte mid = ''checking your browser'' \<longrightarrow>
      HasCloudflare (TestURL ul testURL None title bodyHTML) \<and>
      \<not> Success (TestURL ul testURL None title bodyHTML))"
proof (intro conjI impI)
  assume "\<exists>indicator \<in> set cfIndicators. Contains (ToLower ul bodyHTML) indicator"
  then obtain indicator where "indicator \<in> set cfIndicators"
    and "Contains (ToLower ul bodyHTML) indicator" by blast
  then have f: "HasCloudflare (TestURL ul testURL None title bodyHTML) \<and>
      \<not> Success (TestURL ul testURL None title bodyHTML)"
    by (rule TestURL_flagged)
  from f show "HasCloudflare (TestURL ul testURL None title bodyHTML)" by (rule conjunct1)
  from f show "\<not> Success (TestURL ul testURL None title bodyHTML)" by (rule conjunct2)
next
  assume a: "lowers_ascii_runs ul \<and> bodyHTML = pre @ mid @ post \<and>
      map lower_byte mid \<in> set cfIndicators"
  from a have a1: "lowers_ascii_runs ul" by (rule conjunct1)
  from a have a2: "bodyHTML = pre @ mid @ post" by (rule conjunct2 [THEN conjunct1])
  from a have a3: "map lower_byte mid \<in> set cfIndicators"
    by (rule conjunct2 [THEN conjunct2])
  have "Contains (ToLower ul bodyHTML) (map lower_byte mid)"
    by (rule ToLower_finds_any_case [OF a1 a2 refl cfIndicators_ascii [OF a3]])
  with a3 have f: "HasCloudflare (TestURL ul testURL None title bodyHTML) \<and>
      \<not> Success (TestURL ul testURL None title bodyHTML)"
    by (rule TestURL_flagged)
  from f show "HasCloudflare (TestURL ul testURL None title bodyHTML)" by (rule conjunct1)
  from f show "\<not> Success (TestURL ul testURL None title bodyHTML)" by (rule conjunct2)
next
  assume a: "lowers_ascii_runs ul \<and> bodyHTML = pre @ mid @ post \<and>
      map lower_byte mid = ''checking your browser''"
  from a have a1: "lowers_ascii_runs ul" by (rule conjunct1)
  from a have a2: "bodyHTML = pre @ mid @ post" by (rule conjunct2 [THEN conjunct1])
  from a have a3: "map lower_byte mid = ''checking your browser''"
    by (rule conjunct2 [THEN conjunct2])
  have "Contains (ToLower ul bodyHTML) ''checking your browser''"
    by (rule ToLower_finds_any_case [OF a1 a2 a3 checking_your_browser_ascii])
  with checking_your_browser_indicator
  have f: "HasCloudflare (TestURL ul testURL None title bodyHTML) \<and>
      \<not> Success (TestURL ul testURL None title bodyHTML)"
    by (rule TestURL_flagged)
  from f show "HasCloudflare (TestURL ul testURL None title bodyHTML)" by (rule conjunct1)
  from f show "\<not> Success (TestURL ul testURL None title bodyHTML)" by (rule conjunct2)
qed

text \<open>
  The theorem at two pages: one with an indicator in mixed case, one with "checking your
  browser" in capitals and small letters.
\<close>

theorem TestURL_challenge_in_body_witness:
  "HasCloudflare (TestURL (map lower_byte) ''https://example.test/'' None ''Example'' ''<p>Just a moment...</p>'') \<and>
   \<not> Success (TestURL (map lower_byte) ''https://example.test/'' None ''Example'' ''<p>Just a moment...</p>'') \<and>
   HasCloudflare (TestURL (map lower_byte) ''https://example.test/'' None ''Example'' ''<p>CHECKING Your Browser</p>'') \<and>
   \<not> Success (TestURL (map lower_byte) ''https://example.test/'' None ''Example'' ''<p>CHECKING Your Browser</p>'')"
proof -
  have i: "''just a moment'' \<in> set cfIndicators"
    by (simp add: cfIndicators_def)
  have c: "Contains (ToLower (map lower_byte) ''<p>Just a moment...</p>'') ''just a moment''"
    by code_simp
  from i c have e: "\<exists>indicator \<in> set cfIndicators.
      Contains (ToLower (map lower_byte) ''<p>Just a moment...</p>'') indicator"
    by blast
  have one: "HasCloudflare (TestURL (map lower_byte) ''https://example.test/'' None ''Example'' ''<p>Just a moment...</p>'') \<and>
   \<not> Success (TestURL (map lower_byte) ''https://example.test/'' None ''Example'' ''<p>Just a moment...</p>'')"
    by (rule TestURL_challenge_in_body [THEN conjunct1, THEN mp, OF e])
  have m: "map lower_byte ''CHECKING Your Browser'' = ''checking your browser''"
    by code_simp
  have b: "''<p>CHECKING Your Browser</p>'' = ''<p>'' @ ''CHECKING Your Browser'' @ ''</p>''"
    by simp
  from lowers_ascii_runs_bytewise b m
  have hyp: "lowers_ascii_runs (map lower_byte) \<and>
      ''<p>CHECKING Your Browser</p>'' = ''<p>'' @ ''CHECKING Your Browser'' @ ''</p>'' \<and>
      map lower_byte ''CHECKING Your Browser'' = ''checking your browser''"
    by (intro conjI)
  have two: "HasCloudflare (TestURL (map lower_byte) ''https://example.test/'' None ''Example'' ''<p>CHECKING Your Browser</p>'') \<and>
   \<not> Success (TestURL (map lower_byte) ''https://example.test/'' None ''Example'' ''<p>CHECKING Your Browser</p>'')"
    by (rule TestURL_challenge_in_body [THEN conjunct2, THEN conjunct2, THEN mp, OF hyp])
  from one two show ?thesis by (intro conjI) (erule conjunct1 conjunct2)+
qed

text \<open>
  Claim C1 as it is worded also counts an indicator in the title. The code does not: a
  page titled "Just a moment..." whose body of 501 bytes holds no indicator gets no
  challenge flag and is a success.
\<close>

theorem TestURL_challenge_in_title_counterexample:
  "Contains (ToLower id ''Just a moment...'') ''just a moment'' \<and>
   ''just a moment'' \<in> set cfIndicators \<and>
   \<not> HasCloudflare (TestURL id ''https://example.test/'' None ''Just a moment...'' (replicate 501 CHR ''x'')) \<and>
   Success (TestURL id ''https://example.test/'' None ''Just a moment...'' (replicate 501 CHR ''x''))"
proof -
  have "Contains (ToLower id ''Just a moment...'') ''just a moment''"
    by code_simp
  moreover have "''just a moment'' \<in> set cfIndicators"
    by (simp add: cfIndicators_def)
  ultimately show ?thesis
    by (simp add: TestURL_HasCloudflare TestURL_Success scan_replicate_x)
qed

text \<open>
  Claim C2. When no indicator occurs in the lower-cased body, the result is a success
  exactly when the title is not empty and the body is longer than 500 bytes, and the
  challenge flag is not set. So a body of 1000 bytes with a title is a success, and a body
  of 10 bytes with a title is neither a success nor flagged.
\<close>

theorem TestURL_success_iff:
  assumes "\<not> (\<exists>indicator \<in> set cfIndicators. Contains (ToLower ul bodyHTML) indicator)"
  shows "(Success (TestURL ul testURL None title bodyHTML) \<longleftrightarrow>
            title \<noteq> [] \<and> length bodyHTML > 500) \<and>
         \<not> HasCloudflare (TestURL ul testURL None title bodyHTML) \<and>
         (length bodyHTML = 1000 \<and> title \<noteq> [] \<longrightarrow>
            Success (TestURL ul testURL None title bodyHTML)) \<and>
         (length bodyHTML = 10 \<and> title \<noteq> [] \<longrightarrow>
            \<not> Success (TestURL ul testURL None title bodyHTML) \<and>
            \<not> HasCloudflare (TestURL ul testURL None title bodyHTML))"
proof -
  from assms have no: "\<not> scan_indicators ul bodyHTML cfIndicators"
    by (simp add: scan_indicators_iff)
  have s: "Success (TestURL ul testURL None title bodyHTML) \<longleftrightarrow>
        title \<noteq> [] \<and> length bodyHTML > 500"
    using no by (auto simp: TestURL_Success)
  have c: "\<not> HasCloudflare (TestURL ul testURL None title bodyHTML)"
    using no by (simp add: TestURL_HasCloudflare)
  from s c show ?thesis by simp
qed

theorem TestURL_success_iff_witness:
  "Success (TestURL id ''https://example.test/'' None ''Example'' (replicate 1000 CHR ''x'')) \<and>
   \<not> HasCloudflare (TestURL id ''https://example.test/'' None ''Example'' (replicate 1000 CHR ''x'')) \<and>
   \<not> Success (TestURL id ''https://example.test/'' None ''Example'' (replicate 10 CHR ''x'')) \<and>
   \<not> HasCloudflare (TestURL id ''https://example.test/'' None ''Example'' (replicate 10 CHR ''x''))"
proof -
  have no: "\<not> (\<exists>indicator \<in> set cfIndicators.
      Contains (ToLower id (replicate n CHR ''x'')) indicator)" for n
    using scan_replicate_x [of id n] by (simp add: scan_indicators_iff)
  have t: "''Example'' \<noteq> []" by simp
  from TestURL_success_iff [OF no [of 1000], of "''https://example.test/''" "''Example''"] t
  have a: "Success (TestURL id ''https://example.test/'' None ''Example'' (replicate 1000 CHR ''x'')) \<and>
   \<not> HasCloudflare (TestURL id ''https://example.test/'' None ''Example'' (replicate 1000 CHR ''x''))"
    by simp
  from TestURL_success_iff [OF no [of 10], of "''https://example.test/''" "''Example''"] t
  have b: "\<not> Success (TestURL id ''https://example.test/'' None ''Example'' (replicate 10 CHR ''x'')) \<and>
   \<not> HasCloudflare (TestURL id ''https://example.test/'' None ''Example'' (replicate 10 CHR ''x''))"
    by simp
  from a b show ?thesis by blast
qed

section \<open>Properties of the aggregator\<close>

lemma count_result_fields:
  "successCount (count_result c r) = successCount c + (if counted_success r then 1 else 0)"
  "blockCount (count_result c r) = blockCount c + (if counted_block r then 1 else 0)"
  "errorCount (count_result c r) = errorCount c + (if counted_error r then 1 else 0)"
  by (simp_all add: count_result_def counted_error_def counted_block_def counted_success_def)

lemma foldl_count_result:
  "foldl count_result c rs =
     \<lparr> successCount = successCount c + int (length (filter counted_success rs)),
       blockCount = blockCount c + int (length (filter counted_block rs)),
       errorCount = errorCount c + int (length (filter counted_error rs)) \<rparr>"
proof (induction rs arbitrary: c)
  case Nil
  then show ?case by simp
next
  case (Cons r rs)
  have "foldl count_result c (r # rs) = foldl count_result (count_result c r) rs"
    by simp
  also note Cons.IH [of "count_result c r"]
  finally show ?case by (simp add: count_result_fields)
qed

lemma summarize_counts:
  "successCount (summarize rs) = int (length (filter counted_success rs))"
  "blockCount (summarize rs) = int (length (filter counted_block rs))"
  "errorCount (summarize rs) = int (length (filter counted_error rs))"
  by (simp_all add: summarize_def foldl_count_result)

lemma four_way_split:
  "length (filter counted_success rs) + length (filter counted_block rs) +
   length (filter counted_error rs) + length (filter indeterminate rs) = length rs"
  by (induction rs)
    (auto simp: counted_error_def counted_block_def counted_success_def indeterminate_def)

lemma length_filter_mset: "mset xs = mset ys \<Longrightarrow> length (filter P xs) = length (filter P ys)"
proof -
  assume "mset xs = mset ys"
  then have "size (filter_mset P (mset xs)) = size (filter_mset P (mset ys))" by simp
  then show ?thesis by (simp only: mset_filter [symmetric] size_mset)
qed

lemma summarize_mset: "mset rs = mset rs' \<Longrightarrow> summarize rs = summarize rs'"
  by (simp add: summarize_def foldl_count_result length_filter_mset [of rs rs'])

lemma short_page_result:
  "TestURL id ''https://example.test/'' None ''Example'' ''<html><body>OK</body></html>'' =
     \<lparr> URL = ''https://example.test/'', Title = ''Example'', ContentLength = 28,
       HasCloudflare = False, Success = False, ErrorMessage = [],
       ContentSnippet = ''<html><body>OK</body></html>'' \<rparr>"
proof -
  have "\<not> scan_indicators id ''<html><body>OK</body></html>'' cfIndicators"
    by code_simp
  then show ?thesis by (simp add: TestURL_def)
qed

lemma error_result:
  "TestURL id ''https://example.test/'' (Some ''timeout'') [] [] =
     \<lparr> URL = ''https://example.test/'', Title = [], ContentLength = 0,
       HasCloudflare = False, Success = False, ErrorMessage = ''timeout'',
       ContentSnippet = [] \<rparr>"
  by (simp add: TestURL_def)

lemma success_page_result:
  "TestURL id ''https://example.test/'' None ''Example'' (replicate 501 CHR ''x'') =
     \<lparr> URL = ''https://example.test/'', Title = ''Example'', ContentLength = 501,
       HasCloudflare = False, Success = True, ErrorMessage = [],
       ContentSnippet = replicate 300 CHR ''x'' \<rparr>"
  by (simp add: TestURL_def scan_replicate_x)

lemma blocked_page_result:
  "TestURL id ''https://example.test/'' None ''Just a moment...'' ''<p>Just a moment...</p>'' =
     \<lparr> URL = ''https://example.test/'', Title = ''Just a moment...'', ContentLength = 23,
       HasCloudflare = True, Success = False, ErrorMessage = [],
       ContentSnippet = ''<p>Just a moment...</p>'' \<rparr>"
proof -
  have "scan_indicators id ''<p>Just a moment...</p>'' cfIndicators"
    by code_simp
  then show ?thesis by (simp add: TestURL_def)
qed

text \<open>
  Claim C3, as the code has it. The loop keeps three counts. The success count is the
  number of results with no error message, no challenge flag and success set; the block
  count is the number of results with no error message and the challenge flag set; the
  error count is the number of results with an error message. Results that are none of
  the three are not counted: the sum of the three counts and the number of those results
  make the length of the sequence. A permutation of the sequence gives the same three
  counts.
\<close>

theorem summarize_three_counts:
  "successCount (summarize results) = int (length (filter counted_success results)) \<and>
   blockCount (summarize results) = int (length (filter counted_block results)) \<and>
   errorCount (summarize results) = int (length (filter counted_error results)) \<and>
   successCount (summarize results) + blockCount (summarize results) +
     errorCount (summarize results) + int (length (filter indeterminate results)) =
     int (length results) \<and>
   (mset results' = mset results \<longrightarrow> summarize results' = summarize results)"
proof (intro conjI)
  show "successCount (summarize results) = int (length (filter counted_success results))"
    by (rule summarize_counts(1))
  show "blockCount (summarize results) = int (length (filter counted_block results))"
    by (rule summarize_counts(2))
  show "errorCount (summarize results) = int (length (filter counted_error results))"
    by (rule summarize_counts(3))
  have "int (length (filter counted_success results) + length (filter counted_block results) +
     length (filter counted_error results) + length (filter indeterminate results)) =
     int (length results)"
    by (simp only: four_way_split)
  then show "successCount (summarize results) + blockCount (summarize results) +
     errorCount (summarize results) + int (length (filter indeterminate results)) =
     int (length results)"
    by (simp add: summarize_counts)
  show "mset results' = mset results \<longrightarrow> summarize results' = summarize results"
    by (rule impI) (rule summarize_mset)
qed

text \<open>
  The theorem at four results, one of each kind: a page of 501 bytes that is a success, a
  challenge page, a failed run and a short page. They are counted 1, 1 and 1, the short
  page is not counted, and the counts are the same with the four in the opposite order.
\<close>

theorem summarize_three_counts_witness:
  "summarize
     [TestURL id ''https://example.test/'' None ''Example'' ''<html><body>OK</body></html>'',
      TestURL id ''https://example.test/'' (Some ''timeout'') [] [],
      TestURL id ''https://example.test/'' None ''Example'' (replicate 501 CHR ''x''),
      TestURL id ''https://example.test/'' None ''Just a moment...'' ''<p>Just a moment...</p>''] =
   summarize
     [TestURL id ''https://example.test/'' None ''Just a moment...'' ''<p>Just a moment...</p>'',
      TestURL id ''https://example.test/'' None ''Example'' (replicate 501 CHR ''x''),
      TestURL id ''https://example.test/'' (Some ''timeout'') [] [],
      TestURL id ''https://example.test/'' None ''Example'' ''<html><body>OK</body></html>''] \<and>
   summarize
     [TestURL id ''https://example.test/'' None ''Just a moment...'' ''<p>Just a moment...</p>'',
      TestURL id ''https://example.test/'' None ''Example'' (replicate 501 CHR ''x''),
      TestURL id ''https://example.test/'' (Some ''timeout'') [] [],
      TestURL id ''https://example.test/'' None ''Example'' ''<html><body>OK</body></html>''] =
     \<lparr> successCount = 1, blockCount = 1, errorCount = 1 \<rparr>"
proof -
  let ?ind = "TestURL id ''https://example.test/'' None ''Example'' ''<html><body>OK</body></html>''"
  let ?err = "TestURL id ''https://example.test/'' (Some ''timeout'') [] []"
  let ?ok = "TestURL id ''https://example.test/'' None ''Example'' (replicate 501 CHR ''x'')"
  let ?blk = "TestURL id ''https://example.test/'' None ''Just a moment...'' ''<p>Just a moment...</p>''"
  have p: "mset [?ind, ?err, ?ok, ?blk] = mset [?blk, ?ok, ?err, ?ind]"
    by (simp only: mset_rev [of "[?blk, ?ok, ?err, ?ind]", symmetric] rev.simps append.simps)
  note t = summarize_three_counts [of "[?blk, ?ok, ?err, ?ind]" "[?ind, ?err, ?ok, ?blk]"]
  from t p have e: "summarize [?ind, ?err, ?ok, ?blk] = summarize [?blk, ?ok, ?err, ?ind]"
    by (elim conjE) (erule mp)
  have fs: "filter counted_success [?blk, ?ok, ?err, ?ind] = [?ok]"
    unfolding short_page_result error_result success_page_result blocked_page_result
    by (simp add: counted_success_def)
  have fb: "filter counted_block [?blk, ?ok, ?err, ?ind] = [?blk]"
    unfolding short_page_result error_result success_page_result blocked_page_result
    by (simp add: counted_block_def)
  have fe: "filter counted_error [?blk, ?ok, ?err, ?ind] = [?err]"
    unfolding short_page_result error_result success_page_result blocked_page_result
    by (simp add: counted_error_def)
  have s: "successCount (summarize [?blk, ?ok, ?err, ?ind]) = 1"
  proof -
    from t have "successCount (summarize [?blk, ?ok, ?err, ?ind]) =
        int (length (filter counted_success [?blk, ?ok, ?err, ?ind]))"
      by (rule conjunct1)
    also have "\<dots> = int (length [?ok])" by (simp only: fs)
    finally show ?thesis by simp
  qed
  have b: "blockCount (summarize [?blk, ?ok, ?err, ?ind]) = 1"
  proof -
    from t have "blockCount (summarize [?blk, ?ok, ?err, ?ind]) =
        int (length (filter counted_block [?blk, ?ok, ?err, ?ind]))"
      by (rule conjunct2 [THEN conjunct1])
    also have "\<dots> = int (length [?blk])" by (simp only: fb)
    finally show ?thesis by simp
  qed
  have r: "errorCount (summarize [?blk, ?ok, ?err, ?ind]) = 1"
  proof -
    from t have "errorCount (summarize [?blk, ?ok, ?err, ?ind]) =
        int (length (filter counted_error [?blk, ?ok, ?err, ?ind]))"
      by (rule conjunct2 [THEN conjunct2, THEN conjunct1])
    also have "\<dots> = int (length [?err])" by (simp only: fe)
    finally show ?thesis by simp
  qed
  from s b r have c: "summarize [?blk, ?ok, ?err, ?ind] =
      \<lparr> successCount = 1, blockCount = 1, errorCount = 1 \<rparr>"
    by (intro Counts.equality) simp_all
  from e c show ?thesis by (rule conjI)
qed

text \<open>
  Claim C3 as it is worded has a fourth count and a sum equal to the length. There is no
  fourth counter in the code: for the one result of a short page without indicator, the
  three counts sum to 0, and the sequence has length 1.
\<close>

theorem summarize_sum_counterexample:
  "successCount (summarize [TestURL id ''https://example.test/'' None ''Example'' ''<html><body>OK</body></html>'']) +
   blockCount (summarize [TestURL id ''https://example.test/'' None ''Example'' ''<html><body>OK</body></html>'']) +
   errorCount (summarize [TestURL id ''https://example.test/'' None ''Example'' ''<html><body>OK</body></html>''])
   \<noteq> int (length [TestURL id ''https://example.test/'' None ''Example'' ''<html><body>OK</body></html>''])"
  unfolding short_page_result by (simp add: summarize_def count_result_def)

section \<open>Properties of the registry\<close>

lemma StealthProfiles_names:
  "map Name StealthProfiles =
     [''Windows Chrome 120'', ''MacOS Chrome 120'', ''MacOS M1 Chrome 120'',
      ''Linux Chrome 120'', ''Windows Edge 120'', ''Windows Firefox 121'',
      ''MacOS Firefox 121'', ''Linux Firefox 121'', ''Windows Chrome 121'',
      ''MacOS Chrome 121'']"
  by (simp add: StealthProfiles_def)

lemma StealthProfiles_platforms:
  "map Platform StealthProfiles =
     [''Win32'', ''MacIntel'', ''MacIntel'', ''Linux x86_64'', ''Win32'', ''Win32'',
      ''MacIntel'', ''Linux x86_64'', ''Win32'', ''MacIntel'']"
  by (simp add: StealthProfiles_def)

lemma StealthProfiles_distinct_names: "distinct (map Name StealthProfiles)"
  unfolding StealthProfiles_names by simp

lemma StealthProfiles_nonempty: "StealthProfiles \<noteq> []"
  by (simp add: StealthProfiles_def)

lemma find_none_iff_key: "find (\<lambda>q. f q = k) xs = None \<longleftrightarrow> k \<notin> f ` set xs"
  by (induction xs) auto

lemma find_distinct_key:
  "distinct (map f xs) \<Longrightarrow> p \<in> set xs \<Longrightarrow> find (\<lambda>q. f q = f p) xs = Some p"
proof (induction xs)
  case Nil
  then show ?case by simp
next
  case (Cons x xs)
  show ?case
  proof (cases "x = p")
    case True
    then show ?thesis by simp
  next
    case False
    with Cons.prems have "p \<in> set xs" and "f x \<noteq> f p" by auto
    with Cons show ?thesis by simp
  qed
qed

text \<open>
  Claim C4. For a name that no profile of the catalog has, \<open>GetProfileByName\<close> returns
  the first entry of the catalog, and it always returns a profile, never an error. For
  the name of a catalog profile it returns that profile.
\<close>

theorem GetProfileByName_match_or_default:
  "StealthProfiles \<noteq> [] \<and>
   (name \<notin> Name ` set StealthProfiles \<longrightarrow> GetProfileByName name = StealthProfiles ! 0) \<and>
   (\<forall>p \<in> set StealthProfiles. Name p = name \<longrightarrow> GetProfileByName name = p)"
proof (intro conjI impI ballI)
  show "StealthProfiles \<noteq> []" by (rule StealthProfiles_nonempty)
next
  assume "name \<notin> Name ` set StealthProfiles"
  then have "find (\<lambda>profile. Name profile = name) StealthProfiles = None"
    by (simp add: find_none_iff_key)
  then show "GetProfileByName name = StealthProfiles ! 0"
    by (simp add: GetProfileByName_def)
next
  fix p assume p: "p \<in> set StealthProfiles" and n: "Name p = name"
  from find_distinct_key [OF StealthProfiles_distinct_names p]
  have "find (\<lambda>profile. Name profile = name) StealthProfiles = Some p"
    using n by simp
  then show "GetProfileByName name = p"
    by (simp add: GetProfileByName_def)
qed

theorem GetProfileByName_match_or_default_witness:
  "GetProfileByName ''Safari 17'' = StealthProfiles ! 0 \<and>
   Name (GetProfileByName ''Safari 17'') = ''Windows Chrome 120'' \<and>
   GetProfileByName ''Linux Chrome 120'' = StealthProfiles ! 3"
proof -
  have miss: "''Safari 17'' \<notin> Name ` set StealthProfiles"
    unfolding set_map [symmetric] StealthProfiles_names by simp
  have hit: "StealthProfiles ! 3 \<in> set StealthProfiles"
    by (simp add: StealthProfiles_def)
  have nm: "Name (StealthProfiles ! 3) = ''Linux Chrome 120''"
    by (simp add: StealthProfiles_def)
  have d: "Name (StealthProfiles ! 0) = ''Windows Chrome 120''"
    by (simp add: StealthProfiles_def)
  from GetProfileByName_match_or_default [of "''Safari 17''"] miss
  have a: "GetProfileByName ''Safari 17'' = StealthProfiles ! 0" by blast
  from GetProfileByName_match_or_default [of "''Linux Chrome 120''"] hit nm
  have b: "GetProfileByName ''Linux Chrome 120'' = StealthProfiles ! 3" by blast
  from a b d show ?thesis by simp
qed

lemma filter_mset_key_split:
  "distinct ts \<Longrightarrow>
   (\<Sum>t\<leftarrow>ts. filter_mset (\<lambda>p. f p = t) M) = filter_mset (\<lambda>p. f p \<in> set ts) M"
proof (induction ts)
  case Nil
  then show ?case by simp
next
  case (Cons t ts)
  then have "t \<notin> set ts" and "distinct ts" by auto
  have "filter_mset (\<lambda>p. f p \<in> set (t # ts)) M =
        filter_mset (\<lambda>p. f p = t) M + filter_mset (\<lambda>p. f p \<in> set ts) M"
    using \<open>t \<notin> set ts\<close> by (intro multiset_eqI) auto
  with Cons.IH [OF \<open>distinct ts\<close>] show ?case by simp
qed

lemma mset_concat_by_key:
  "mset (concat (map (\<lambda>t. filter (\<lambda>p. f p = t) xs) (remdups (map f xs)))) = mset xs"
proof -
  have "mset (concat (map (\<lambda>t. filter (\<lambda>p. f p = t) xs) (remdups (map f xs)))) =
        (\<Sum>t\<leftarrow>remdups (map f xs). filter_mset (\<lambda>p. f p = t) (mset xs))"
    by (simp add: mset_concat comp_def)
  also have "\<dots> = filter_mset (\<lambda>p. f p \<in> set (remdups (map f xs))) (mset xs)"
    by (rule filter_mset_key_split) simp
  also have "\<dots> = mset xs"
    by (intro multiset_eqI) (auto simp: count_eq_zero_iff)
  finally show ?thesis .
qed

lemma StealthProfiles_distinct: "distinct StealthProfiles"
  using StealthProfiles_distinct_names by (simp add: distinct_map)

lemma GetProfilesByPlatform_fun:
  "GetProfilesByPlatform = (\<lambda>t. filter (\<lambda>p. Platform p = t) StealthProfiles)"
  by (rule ext) (simp add: GetProfilesByPlatform_def)

text \<open>
  Claim C7. For the platform tag of any catalog profile, \<open>GetProfilesByPlatform\<close>
  returns a list that is not empty. The results for the distinct platform tags of the
  catalog, put together, are a permutation of the catalog, and every catalog profile
  occurs in them exactly once.
\<close>

theorem GetProfilesByPlatform_partition:
  "(\<forall>p \<in> set StealthProfiles. GetProfilesByPlatform (Platform p) \<noteq> []) \<and>
   mset (concat (map GetProfilesByPlatform (remdups (map Platform StealthProfiles)))) =
     mset StealthProfiles \<and>
   (\<forall>p \<in> set StealthProfiles.
      count_list (concat (map GetProfilesByPlatform (remdups (map Platform StealthProfiles)))) p = 1)"
proof (intro conjI ballI)
  fix p assume "p \<in> set StealthProfiles"
  then have "p \<in> set (GetProfilesByPlatform (Platform p))"
    by (simp add: GetProfilesByPlatform_def)
  then show "GetProfilesByPlatform (Platform p) \<noteq> []" by auto
next
  show m: "mset (concat (map GetProfilesByPlatform (remdups (map Platform StealthProfiles)))) =
     mset StealthProfiles"
    unfolding GetProfilesByPlatform_fun by (rule mset_concat_by_key)
  fix p assume p: "p \<in> set StealthProfiles"
  have "count_list (concat (map GetProfilesByPlatform (remdups (map Platform StealthProfiles)))) p =
        count (mset (concat (map GetProfilesByPlatform (remdups (map Platform StealthProfiles))))) p"
    by (simp only: count_mset)
  also have "\<dots> = count (mset StealthProfiles) p" by (simp only: m)
  also have "\<dots> = 1"
    using p StealthProfiles_distinct by (simp add: distinct_count_atmost_1)
  finally show "count_list (concat (map GetProfilesByPlatform
      (remdups (map Platform StealthProfiles)))) p = 1" .
qed

theorem GetProfilesByPlatform_partition_witness:
  "remdups (map Platform StealthProfiles) = [''Linux x86_64'', ''Win32'', ''MacIntel''] \<and>
   map Name (GetProfilesByPlatform ''Linux x86_64'') = [''Linux Chrome 120'', ''Linux Firefox 121''] \<and>
   StealthProfiles ! 3 \<in> set StealthProfiles \<and>
   GetProfilesByPlatform (Platform (StealthProfiles ! 3)) \<noteq> [] \<and>
   count_list (concat (map GetProfilesByPlatform [''Linux x86_64'', ''Win32'', ''MacIntel'']))
     (StealthProfiles ! 3) = 1"
proof -
  have t: "remdups (map Platform StealthProfiles) = [''Linux x86_64'', ''Win32'', ''MacIntel'']"
    unfolding StealthProfiles_platforms by simp
  have l: "map Name (GetProfilesByPlatform ''Linux x86_64'') =
      [''Linux Chrome 120'', ''Linux Firefox 121'']"
    by (simp add: GetProfilesByPlatform_def StealthProfiles_def)
  have i: "StealthProfiles ! 3 \<in> set StealthProfiles"
    by (simp add: StealthProfiles_def)
  from GetProfilesByPlatform_partition i
  have n: "GetProfilesByPlatform (Platform (StealthProfiles ! 3)) \<noteq> []"
    and c: "count_list (concat (map GetProfilesByPlatform
        (remdups (map Platform StealthProfiles)))) (StealthProfiles ! 3) = 1"
    by blast+
  from c have c': "count_list (concat (map GetProfilesByPlatform
      [''Linux x86_64'', ''Win32'', ''MacIntel''])) (StealthProfiles ! 3) = 1"
    by (simp only: t)
  from t l i n c' show ?thesis by (intro conjI)
qed

section \<open>Properties of the header merge\<close>

lemma make_map_simps:
  "fst (make_map e h) = next_ref h"
  "cells (snd (make_map e h)) = (cells h)(next_ref h \<mapsto> e)"
  "next_ref (snd (make_map e h)) = next_ref h + 1"
  by (simp_all add: make_map_def)

lemma map_assign_simps:
  "next_ref (map_assign r k v h) = next_ref h"
  "cells (map_assign r k v h) = (cells h)(r \<mapsto> (contents h (MapRef r))(k \<mapsto> v))"
  by (simp_all add: map_assign_def)

lemma contents_map_assign_other:
  "src \<noteq> MapRef dst \<Longrightarrow> contents (map_assign dst k v h) src = contents h src"
  by (cases src) (simp_all add: map_assign_simps)

lemma range_assign_next_ref: "next_ref (range_assign order src dst h) = next_ref h"
  by (induction order arbitrary: h) (simp_all add: map_assign_simps split: option.splits)

lemma range_assign_cells_other:
  "r \<noteq> dst \<Longrightarrow> cells (range_assign order src dst h) r = cells h r"
  by (induction order arbitrary: h) (simp_all add: map_assign_simps split: option.splits)

lemma map_add_restrict_step:
  "s k = Some v \<Longrightarrow> m(k \<mapsto> v) ++ (s |` A) = m ++ (s |` insert k A)"
  by (rule ext) (auto simp: map_add_def restrict_map_def split: option.splits)

lemma map_add_restrict_skip:
  "s k = None \<Longrightarrow> m ++ (s |` A) = m ++ (s |` insert k A)"
  by (rule ext) (auto simp: map_add_def restrict_map_def split: option.splits)

lemma range_assign_dst:
  "src \<noteq> MapRef dst \<Longrightarrow> cells h dst = Some m \<Longrightarrow>
   cells (range_assign order src dst h) dst = Some (m ++ (contents h src |` set order))"
proof (induction order arbitrary: h m)
  case Nil
  then show ?case by simp
next
  case (Cons k order)
  show ?case
  proof (cases "contents h src k")
    case None
    have e: "m ++ (contents h src |` set (k # order)) = m ++ (contents h src |` set order)"
      using map_add_restrict_skip [of "contents h src" k m "set order"] None by simp
    from Cons.IH [OF Cons.prems] None show ?thesis
      by (simp only: e range_assign.simps option.case)
  next
    case (Some v)
    let ?h = "map_assign dst k v h"
    have c: "cells ?h dst = Some (m(k \<mapsto> v))"
      using Cons.prems(2) by (simp add: map_assign_simps)
    have s: "contents ?h src = contents h src"
      using Cons.prems(1) by (rule contents_map_assign_other)
    have e: "m ++ (contents h src |` set (k # order)) =
        m(k \<mapsto> v) ++ (contents h src |` set order)"
      using map_add_restrict_step [of "contents h src" k v m "set order"] Some by simp
    from Cons.IH [OF Cons.prems(1) c] Some show ?thesis
      by (simp only: e s range_assign.simps option.case)
  qed
qed

lemma restrict_map_dom: "m |` dom m = m"
  by (rule ext) (simp add: restrict_map_def domIff)

lemma fresh_not_valid: "store_ok h \<Longrightarrow> valid_ref h ref \<Longrightarrow> ref \<noteq> MapRef (next_ref h)"
  by (cases ref) (auto simp: store_ok_def)

lemma contents_make_map_old:
  "ref \<noteq> MapRef (next_ref h) \<Longrightarrow> contents (snd (make_map e h)) ref = contents h ref"
  by (cases ref) (simp_all add: make_map_simps)

lemma HeadersWithDefaults_result:
  assumes ok: "store_ok h"
    and va: "valid_ref h (Headers a)"
    and vc: "valid_ref h customHeaders"
    and o1: "iteration_order order1 (contents h (Headers a))"
    and o2: "iteration_order order2 (contents h customHeaders)"
  shows "HeadersWithDefaults order1 order2 a customHeaders h =
     (MapRef (next_ref h),
      h\<lparr>cells := (cells h)(next_ref h \<mapsto> contents h (Headers a) ++ contents h customHeaders),
         next_ref := next_ref h + 1\<rparr>)"
proof -
  let ?m = "next_ref h"
  let ?h1 = "snd (make_map Map.empty h)"
  let ?h2 = "range_assign order1 (Headers a) ?m ?h1"
  let ?h3 = "range_assign order2 customHeaders ?m ?h2"
  have na: "Headers a \<noteq> MapRef ?m" using ok va by (rule fresh_not_valid)
  have nc: "customHeaders \<noteq> MapRef ?m" using ok vc by (rule fresh_not_valid)
  have c1: "cells ?h1 ?m = Some Map.empty" by (simp add: make_map_simps)
  have a1: "contents ?h1 (Headers a) = contents h (Headers a)"
    using na by (rule contents_make_map_old)
  have k1: "contents ?h1 customHeaders = contents h customHeaders"
    using nc by (rule contents_make_map_old)
  have c2: "cells ?h2 ?m = Some (contents h (Headers a))"
    using range_assign_dst [OF na c1, of order1] o1
    by (simp add: a1 iteration_order_def restrict_map_dom)
  have k2: "contents ?h2 customHeaders = contents h customHeaders"
  proof (cases customHeaders)
    case NilMap
    then show ?thesis by simp
  next
    case (MapRef r)
    with nc have "r \<noteq> ?m" by simp
    then have "cells ?h2 r = cells ?h1 r" by (rule range_assign_cells_other)
    with MapRef k1 show ?thesis by simp
  qed
  have c3: "cells ?h3 ?m = Some (contents h (Headers a) ++ contents h customHeaders)"
    using range_assign_dst [OF nc c2, of order2] o2
    by (simp add: k2 iteration_order_def restrict_map_dom)
  have cells: "cells ?h3 =
      (cells h)(?m \<mapsto> contents h (Headers a) ++ contents h customHeaders)"
  proof (rule ext)
    fix r
    show "cells ?h3 r =
      ((cells h)(?m \<mapsto> contents h (Headers a) ++ contents h customHeaders)) r"
    proof (cases "r = ?m")
      case True
      with c3 show ?thesis by simp
    next
      case False
      then have "cells ?h3 r = cells ?h1 r"
        by (simp add: range_assign_cells_other)
      with False show ?thesis by (simp add: make_map_simps)
    qed
  qed
  have nxt: "next_ref ?h3 = ?m + 1"
    by (simp add: range_assign_next_ref make_map_simps)
  have "?h3 = h\<lparr>cells := (cells h)(?m \<mapsto> contents h (Headers a) ++ contents h customHeaders),
         next_ref := ?m + 1\<rparr>"
    using cells nxt by (intro store.equality) simp_all
  then show ?thesis
    by (simp add: HeadersWithDefaults_def split_beta Let_def make_map_simps)
qed

lemma generateRealisticHeaders_result:
  assumes "generateRealisticHeaders profile h = (ref, h')"
  shows "ref = MapRef (next_ref h)"
    and "contents h' ref ''Accept-Language'' = Some (Language profile)"
    and "next_ref h' = next_ref h + 1"
    and "r \<noteq> next_ref h \<Longrightarrow> cells h' r = cells h r"
    and "next_ref h \<in> dom (cells h')"
  using assms
  by (auto simp: generateRealisticHeaders_def make_map_def map_assign_def split: if_splits)

lemma HeadersWithDefaults_frame_aux:
  "HeadersWithDefaults order1 order2 a customHeaders h = (merged, h') \<Longrightarrow>
   merged = MapRef (next_ref h) \<and> (\<forall>r. r \<noteq> next_ref h \<longrightarrow> cells h' r = cells h r)"
  by (auto simp: HeadersWithDefaults_def split_beta Let_def make_map_simps
      range_assign_cells_other)

text \<open>
  Claim C5. The merged map holds the defaults of the agent overridden by the custom
  headers: on every key of the custom headers the custom value wins. The result does not
  depend on the order in which the runtime visits the two maps, so the same agent and the
  same custom headers always give the same result. In particular, for an agent whose
  headers were generated from a profile with language en-US, so that its Accept-Language
  is en-US, merging the custom headers {Accept-Language: fr-FR} gives Accept-Language
  fr-FR.
\<close>

theorem HeadersWithDefaults_override_wins:
  assumes "store_ok h"
    and "valid_ref h (Headers a)"
    and "valid_ref h customHeaders"
    and "iteration_order order1 (contents h (Headers a))"
    and "iteration_order order2 (contents h customHeaders)"
    and "HeadersWithDefaults order1 order2 a customHeaders h = (merged, h')"
  shows "contents h' merged = contents h (Headers a) ++ contents h customHeaders \<and>
    (\<forall>k v. contents h customHeaders k = Some v \<longrightarrow> contents h' merged k = Some v) \<and>
    (\<forall>o1 o2. iteration_order o1 (contents h (Headers a)) \<and>
        iteration_order o2 (contents h customHeaders) \<longrightarrow>
        HeadersWithDefaults o1 o2 a customHeaders h = (merged, h')) \<and>
    (generateRealisticHeaders profile h0 = (Headers a, h) \<and> Language profile = ''en-US'' \<and>
        contents h customHeaders = [''Accept-Language'' \<mapsto> ''fr-FR''] \<longrightarrow>
        contents h (Headers a) ''Accept-Language'' = Some ''en-US'' \<and>
        contents h' merged ''Accept-Language'' = Some ''fr-FR'')"
proof -
  from HeadersWithDefaults_result [OF assms(1-5)] assms(6)
  have m: "merged = MapRef (next_ref h)"
    and h': "h' = h\<lparr>cells := (cells h)(next_ref h \<mapsto>
                contents h (Headers a) ++ contents h customHeaders),
              next_ref := next_ref h + 1\<rparr>"
    by simp_all
  have c: "contents h' merged = contents h (Headers a) ++ contents h customHeaders"
    by (simp add: m h')
  have w: "\<forall>k v. contents h customHeaders k = Some v \<longrightarrow> contents h' merged k = Some v"
    by (simp add: c)
  have d: "\<forall>o1 o2. iteration_order o1 (contents h (Headers a)) \<and>
        iteration_order o2 (contents h customHeaders) \<longrightarrow>
        HeadersWithDefaults o1 o2 a customHeaders h = (merged, h')"
    using HeadersWithDefaults_result [OF assms(1-3)] m h' by simp
  have e: "generateRealisticHeaders profile h0 = (Headers a, h) \<and> Language profile = ''en-US'' \<and>
        contents h customHeaders = [''Accept-Language'' \<mapsto> ''fr-FR''] \<longrightarrow>
        contents h (Headers a) ''Accept-Language'' = Some ''en-US'' \<and>
        contents h' merged ''Accept-Language'' = Some ''fr-FR''"
  proof (intro impI, elim conjE)
    assume g: "generateRealisticHeaders profile h0 = (Headers a, h)"
      and l: "Language profile = ''en-US''"
      and o: "contents h customHeaders = [''Accept-Language'' \<mapsto> ''fr-FR'']"
    from generateRealisticHeaders_result(2) [OF g] l
    have "contents h (Headers a) ''Accept-Language'' = Some ''en-US''" by simp
    moreover have "contents h' merged ''Accept-Language'' = Some ''fr-FR''"
      by (simp add: c o)
    ultimately show "contents h (Headers a) ''Accept-Language'' = Some ''en-US'' \<and>
        contents h' merged ''Accept-Language'' = Some ''fr-FR''" by (rule conjI)
  qed
  from c w d e show ?thesis by (intro conjI)
qed

text \<open>
  The theorem at the first catalog profile: the custom headers are made first, the
  headers of the agent are generated from the profile, and the two are merged.
\<close>

theorem HeadersWithDefaults_override_wins_witness:
  "let profile = StealthProfiles ! 0;
       h0 = \<lparr> cells = [0 \<mapsto> [''Accept-Language'' \<mapsto> ''fr-FR'']], next_ref = 1 \<rparr>;
       (headers, h) = generateRealisticHeaders profile h0;
       a = \<lparr> ID = ''agent-1'', Profile = profile, Headers = headers, Cookies = NilMap,
             RateLimit = 1, Delay = 2000, RetryCount = 3, ProxyURL = [], LastActivity = 0 \<rparr>;
       order1 = [''Pragma'', ''Connection'', ''DNT'', ''Sec-Ch-Ua-Platform'',
                 ''Sec-Ch-Ua-Mobile'', ''Sec-Ch-Ua'', ''Upgrade-Insecure-Requests'',
                 ''Sec-Fetch-User'', ''Sec-Fetch-Site'', ''Sec-Fetch-Mode'',
                 ''Sec-Fetch-Dest'', ''Cache-Control'', ''Accept-Encoding'',
                 ''Accept-Language'', ''Accept'', ''User-Agent''];
       (merged, h') = HeadersWithDefaults order1 [''Accept-Language''] a (MapRef 0) h
   in contents h headers ''Accept-Language'' = Some ''en-US'' \<and>
      contents h' merged ''Accept-Language'' = Some ''fr-FR'' \<and>
      contents h' merged ''Pragma'' = Some ''no-cache''"
proof -
  define profile where "profile = StealthProfiles ! 0"
  define h0 where "h0 = \<lparr> cells = [0 \<mapsto> [''Accept-Language'' \<mapsto> ''fr-FR'']], next_ref = 1 \<rparr>"
  define headers where "headers = fst (generateRealisticHeaders profile h0)"
  define h where "h = snd (generateRealisticHeaders profile h0)"
  define a where "a = \<lparr> ID = ''agent-1'', Profile = profile, Headers = headers, Cookies = NilMap,
             RateLimit = 1, Delay = 2000, RetryCount = 3, ProxyURL = [], LastActivity = 0 \<rparr>"
  define order1 where "order1 = [''Pragma'', ''Connection'', ''DNT'', ''Sec-Ch-Ua-Platform'',
                 ''Sec-Ch-Ua-Mobile'', ''Sec-Ch-Ua'', ''Upgrade-Insecure-Requests'',
                 ''Sec-Fetch-User'', ''Sec-Fetch-Site'', ''Sec-Fetch-Mode'',
                 ''Sec-Fetch-Dest'', ''Cache-Control'', ''Accept-Encoding'',
                 ''Accept-Language'', ''Accept'', ''User-Agent'']"
  define merged where "merged = fst (HeadersWithDefaults order1 [''Accept-Language''] a (MapRef 0) h)"
  define h' where "h' = snd (HeadersWithDefaults order1 [''Accept-Language''] a (MapRef 0) h)"
  have lang: "Language profile = ''en-US''" and plat: "Platform profile = ''Win32''"
    by (simp_all add: profile_def StealthProfiles_def)
  have g: "generateRealisticHeaders profile h0 = (headers, h)"
    by (simp add: headers_def h_def)
  have hd: "headers = MapRef 1"
    using generateRealisticHeaders_result(1) [OF g] by (simp add: h0_def)
  have nx: "next_ref h = 2"
    using generateRealisticHeaders_result(3) [OF g] by (simp add: h0_def)
  have c0: "cells h 0 = Some [''Accept-Language'' \<mapsto> ''fr-FR'']"
    using generateRealisticHeaders_result(4) [OF g, of 0] by (simp add: h0_def)
  have dm: "dom (cells h) = {0, 1}"
  proof -
    have "r \<in> dom (cells h) \<longleftrightarrow> r = 0 \<or> r = 1" for r
      using generateRealisticHeaders_result(4) [OF g, of r]
        generateRealisticHeaders_result(5) [OF g]
      by (cases "r = 1") (auto simp: h0_def split: if_splits)
    then show ?thesis by (intro set_eqI) simp
  qed
  have ok: "store_ok h" by (simp add: store_ok_def dm nx)
  have va: "valid_ref h (Headers a)" by (simp add: a_def hd dm)
  have vc: "valid_ref h (MapRef 0)" by (simp add: dm)
  have dk: "dom (contents h (MapRef 1)) = set order1"
    by (simp add: h_def generateRealisticHeaders_def make_map_def plat h0_def order1_def)
  have di: "distinct order1" by (simp add: order1_def)
  have h1: "Headers a = MapRef 1" by (simp add: a_def hd)
  have o1: "iteration_order order1 (contents h (Headers a))"
    by (simp only: iteration_order_def h1 dk di simp_thms)
  have o2: "iteration_order [''Accept-Language''] (contents h (MapRef 0))"
    by (simp add: iteration_order_def c0)
  have r: "HeadersWithDefaults order1 [''Accept-Language''] a (MapRef 0) h = (merged, h')"
    by (simp add: merged_def h'_def)
  have cu: "contents h (MapRef 0) = [''Accept-Language'' \<mapsto> ''fr-FR'']"
    by (simp add: c0)
  have ha: "Headers a = headers" by (simp add: a_def)
  from HeadersWithDefaults_override_wins [OF ok va vc o1 o2 r, of profile h0] g lang cu ha
  have one: "contents h headers ''Accept-Language'' = Some ''en-US'' \<and>
      contents h' merged ''Accept-Language'' = Some ''fr-FR''"
    by simp
  from HeadersWithDefaults_override_wins [OF ok va vc o1 o2 r, of profile h0]
  have "contents h' merged = contents h (Headers a) ++ contents h (MapRef 0)"
    by (rule conjunct1)
  moreover have "contents h (Headers a) ''Pragma'' = Some ''no-cache''"
    by (simp add: ha hd h_def generateRealisticHeaders_def make_map_def plat h0_def)
  ultimately have two: "contents h' merged ''Pragma'' = Some ''no-cache''"
    by (simp add: c0 map_add_def)
  from one two show ?thesis
    unfolding Let_def split_beta profile_def h0_def headers_def h_def a_def order1_def
      merged_def h'_def
    by (intro conjI) (erule conjunct1 conjunct2 | assumption)+
qed

text \<open>
  Claim C9. The merged map is a new map: its address is not in use before the call and
  differs from the address of the agent's own headers. Every map that exists before the
  call has the same entries after it, the agent's headers among them, also when the
  custom headers redefine keys of the defaults or are the very same map.
\<close>

theorem HeadersWithDefaults_frame:
  assumes "store_ok h"
    and "valid_ref h (Headers a)"
    and "HeadersWithDefaults order1 order2 a customHeaders h = (merged, h')"
  shows "merged = MapRef (next_ref h) \<and> next_ref h \<notin> dom (cells h) \<and>
    merged \<noteq> Headers a \<and>
    (\<forall>r \<in> dom (cells h). cells h' r = cells h r) \<and>
    contents h' (Headers a) = contents h (Headers a)"
proof -
  from HeadersWithDefaults_frame_aux [OF assms(3)]
  have m: "merged = MapRef (next_ref h)"
    and o: "\<forall>r. r \<noteq> next_ref h \<longrightarrow> cells h' r = cells h r" by simp_all
  from assms(1) have f: "next_ref h \<notin> dom (cells h)"
    by (auto simp: store_ok_def)
  from fresh_not_valid [OF assms(1,2)] m have n: "merged \<noteq> Headers a" by simp
  have u: "\<forall>r \<in> dom (cells h). cells h' r = cells h r"
  proof
    fix r assume "r \<in> dom (cells h)"
    with f have "r \<noteq> next_ref h" by blast
    with o show "cells h' r = cells h r" by blast
  qed
  have k: "contents h' (Headers a) = contents h (Headers a)"
  proof (cases "Headers a")
    case NilMap
    then show ?thesis by simp
  next
    case (MapRef r)
    with assms(2) have "r \<in> dom (cells h)" by simp
    with u have "cells h' r = cells h r" by blast
    with MapRef show ?thesis by simp
  qed
  from m f n u k show ?thesis by (intro conjI)
qed

theorem HeadersWithDefaults_frame_witness:
  "let h = \<lparr> cells = [0 \<mapsto> [''Accept-Language'' \<mapsto> ''en-US''],
                      1 \<mapsto> [''Accept-Language'' \<mapsto> ''fr-FR'']], next_ref = 2 \<rparr>;
       a = \<lparr> ID = ''agent-1'', Profile = StealthProfiles ! 0, Headers = MapRef 0,
             Cookies = NilMap, RateLimit = 1, Delay = 2000, RetryCount = 3, ProxyURL = [],
             LastActivity = 0 \<rparr>;
       (merged, h') = HeadersWithDefaults [''Accept-Language''] [''Accept-Language''] a (MapRef 1) h
   in merged = MapRef 2 \<and> contents h' (Headers a) = [''Accept-Language'' \<mapsto> ''en-US''] \<and>
      contents h' merged ''Accept-Language'' = Some ''fr-FR''"
proof -
  define h where "h = \<lparr> cells = [0 \<mapsto> [''Accept-Language'' \<mapsto> ''en-US''],
                      (1::nat) \<mapsto> [''Accept-Language'' \<mapsto> ''fr-FR'']], next_ref = 2 \<rparr>"
  define a where "a = \<lparr> ID = ''agent-1'', Profile = StealthProfiles ! 0, Headers = MapRef 0,
             Cookies = NilMap, RateLimit = 1, Delay = 2000, RetryCount = 3, ProxyURL = [],
             LastActivity = 0 \<rparr>"
  define merged where
    "merged = fst (HeadersWithDefaults [''Accept-Language''] [''Accept-Language''] a (MapRef 1) h)"
  define h' where
    "h' = snd (HeadersWithDefaults [''Accept-Language''] [''Accept-Language''] a (MapRef 1) h)"
  have ok: "store_ok h" by (auto simp: store_ok_def h_def split: if_splits)
  have va: "valid_ref h (Headers a)" by (simp add: a_def h_def)
  have r: "HeadersWithDefaults [''Accept-Language''] [''Accept-Language''] a (MapRef 1) h = (merged, h')"
    by (simp add: merged_def h'_def)
  from HeadersWithDefaults_frame [OF ok va r]
  have m: "merged = MapRef 2" and k: "contents h' (Headers a) = contents h (Headers a)"
    by (simp_all add: h_def)
  have c: "contents h (Headers a) = [''Accept-Language'' \<mapsto> ''en-US'']"
    by (simp add: a_def h_def)
  have f: "contents h' merged ''Accept-Language'' = Some ''fr-FR''"
    by (simp add: merged_def h'_def HeadersWithDefaults_def make_map_def map_assign_def
        a_def h_def)
  from k c have k': "contents h' (Headers a) = [''Accept-Language'' \<mapsto> ''en-US'']"
    by simp
  from m k' f show ?thesis
    unfolding Let_def split_beta h_def a_def merged_def h'_def
    by (intro conjI)
qed

section \<open>Properties of the pool\<close>

text \<open>
  Claim C6. When the pool holds as many agents as its ceiling allows, \<open>AddAgent\<close>
  returns the error and the pool is what it was: same agents, same size.
\<close>

theorem AddAgent_at_capacity:
  assumes "GetPoolSize bp = MaxAgents bp"
  shows "fst (AddAgent bp agent) = Some (PoolFull (MaxAgents bp)) \<and>
         snd (AddAgent bp agent) = bp \<and>
         Agents (snd (AddAgent bp agent)) = Agents bp \<and>
         GetPoolSize (snd (AddAgent bp agent)) = GetPoolSize bp"
  using assms by (simp add: AddAgent_def GetPoolSize_def)

theorem AddAgent_at_capacity_witness:
  "let a1 = \<lparr> ID = ''agent-1'', Profile = StealthProfiles ! 0, Headers = NilMap,
              Cookies = NilMap, RateLimit = 1, Delay = 2000, RetryCount = 3, ProxyURL = [],
              LastActivity = 0 \<rparr>;
       a2 = a1\<lparr>ID := ''agent-2''\<rparr>;
       bp = snd (AddAgent (NewBrowserPool 1) a1)
   in GetPoolSize bp = 1 \<and> MaxAgents bp = 1 \<and>
      fst (AddAgent bp a2) = Some (PoolFull 1) \<and> snd (AddAgent bp a2) = bp \<and>
      GetAgent (snd (AddAgent bp a2)) ''agent-2'' = None"
proof -
  define a1 where "a1 = \<lparr> ID = ''agent-1'', Profile = StealthProfiles ! 0, Headers = NilMap,
              Cookies = NilMap, RateLimit = 1, Delay = 2000, RetryCount = 3, ProxyURL = [],
              LastActivity = 0 \<rparr>"
  define a2 where "a2 = a1\<lparr>ID := ''agent-2''\<rparr>"
  define bp where "bp = snd (AddAgent (NewBrowserPool 1) a1)"
  have b: "bp = \<lparr> Agents = [''agent-1'' \<mapsto> a1], MaxAgents = 1, RateLimiter = Map.empty \<rparr>"
    by (simp add: bp_def AddAgent_def NewBrowserPool_def a1_def)
  have s: "GetPoolSize bp = 1" and m: "MaxAgents bp = 1"
    by (simp_all add: b GetPoolSize_def)
  from s m have e: "GetPoolSize bp = MaxAgents bp" by simp
  from AddAgent_at_capacity [OF e, of a2] m
  have r: "fst (AddAgent bp a2) = Some (PoolFull 1)" and u: "snd (AddAgent bp a2) = bp"
    by simp_all
  have g: "GetAgent (snd (AddAgent bp a2)) ''agent-2'' = None"
    by (simp add: u) (simp add: b GetAgent_def)
  from s m r u g show ?thesis
    unfolding Let_def a1_def a2_def bp_def by (intro conjI)
qed

text \<open>Below the ceiling the agent is stored under its identifier.\<close>

lemma AddAgent_below_capacity:
  "GetPoolSize bp < MaxAgents bp \<Longrightarrow>
   AddAgent bp agent = (None, bp\<lparr>Agents := (Agents bp)(ID agent \<mapsto> agent)\<rparr>)"
  by (simp add: AddAgent_def GetPoolSize_def)

lemma pick_agent_nth:
  "0 \<le> idx \<Longrightarrow> idx < int (length order) \<Longrightarrow>
   pick_agent order agents idx = agents (order ! nat idx)"
proof (induction order arbitrary: idx)
  case Nil
  then show ?case by simp
next
  case (Cons k order)
  show ?case
  proof (cases "idx = 0")
    case True
    then show ?thesis by simp
  next
    case False
    with Cons.prems have "0 \<le> idx - 1" and "idx - 1 < int (length order)" by simp_all
    from Cons.IH [OF this] False Cons.prems show ?thesis
      by (simp add: nat_diff_distrib' nth_Cons')
  qed
qed

text \<open>
  Claim C10. \<open>GetRandomAgent\<close> returns nil for the empty pool. For a pool that is not
  empty, with the number drawn at least 0 and below the size of the pool as the random
  source gives it, it returns an agent, and that agent is one of the pool.
\<close>

theorem GetRandomAgent_nil_iff_empty:
  assumes "iteration_order order (Agents bp)"
  shows "(Agents bp = Map.empty \<longrightarrow> GetRandomAgent order drawn bp = None) \<and>
         (Agents bp \<noteq> Map.empty \<and> 0 \<le> drawn \<and> drawn < GetPoolSize bp \<longrightarrow>
            (\<exists>agent. GetRandomAgent order drawn bp = Some agent \<and> agent \<in> ran (Agents bp)))"
proof (intro conjI impI)
  assume "Agents bp = Map.empty"
  then show "GetRandomAgent order drawn bp = None"
    by (simp add: GetRandomAgent_def)
next
  assume a: "Agents bp \<noteq> Map.empty \<and> 0 \<le> drawn \<and> drawn < GetPoolSize bp"
  from assms have d: "distinct order" and s: "set order = dom (Agents bp)"
    by (simp_all add: iteration_order_def)
  from d s have len: "length order = card (dom (Agents bp))"
    by (metis distinct_card)
  from a have lo: "0 \<le> drawn" and hi: "drawn < int (length order)"
    by (simp_all add: GetPoolSize_def len)
  from a len hi have ne: "card (dom (Agents bp)) \<noteq> 0" by auto
  from lo hi have "nat drawn < length order" by simp
  then have "order ! nat drawn \<in> dom (Agents bp)"
    using s nth_mem by blast
  then obtain agent where g: "Agents bp (order ! nat drawn) = Some agent" by blast
  then have "agent \<in> ran (Agents bp)" by (rule ranI)
  moreover have "GetRandomAgent order drawn bp = Some agent"
    using ne g by (simp add: GetRandomAgent_def pick_agent_nth [OF lo hi])
  ultimately show "\<exists>agent. GetRandomAgent order drawn bp = Some agent \<and> agent \<in> ran (Agents bp)"
    by blast
qed

theorem GetRandomAgent_nil_iff_empty_witness:
  "let a1 = \<lparr> ID = ''agent-1'', Profile = StealthProfiles ! 0, Headers = NilMap,
              Cookies = NilMap, RateLimit = 1, Delay = 2000, RetryCount = 3, ProxyURL = [],
              LastActivity = 0 \<rparr>;
       a2 = a1\<lparr>ID := ''agent-2''\<rparr>;
       bp = snd (AddAgent (snd (AddAgent (NewBrowserPool 5) a1)) a2)
   in GetRandomAgent [] 0 (NewBrowserPool 5) = None \<and>
      GetRandomAgent [''agent-2'', ''agent-1''] 1 bp = Some a1 \<and> a1 \<in> ran (Agents bp)"
proof -
  define a1 where "a1 = \<lparr> ID = ''agent-1'', Profile = StealthProfiles ! 0, Headers = NilMap,
              Cookies = NilMap, RateLimit = 1, Delay = 2000, RetryCount = 3, ProxyURL = [],
              LastActivity = 0 \<rparr>"
  define a2 where "a2 = a1\<lparr>ID := ''agent-2''\<rparr>"
  define bp where "bp = snd (AddAgent (snd (AddAgent (NewBrowserPool 5) a1)) a2)"
  have b: "bp = \<lparr> Agents = [''agent-1'' \<mapsto> a1, ''agent-2'' \<mapsto> a2], MaxAgents = 5,
                  RateLimiter = Map.empty \<rparr>"
    by (simp add: bp_def AddAgent_def NewBrowserPool_def a1_def a2_def)
  have e: "iteration_order [] (Agents (NewBrowserPool 5))"
    by (simp add: iteration_order_def NewBrowserPool_def)
  from GetRandomAgent_nil_iff_empty [OF e, of 0]
  have one: "GetRandomAgent [] 0 (NewBrowserPool 5) = None"
    by (simp add: NewBrowserPool_def)
  have o: "iteration_order [''agent-2'', ''agent-1''] (Agents bp)"
    by (auto simp: iteration_order_def b)
  have n: "Agents bp \<noteq> Map.empty" by (simp add: b)
  have sz: "GetPoolSize bp = 2" by (simp add: GetPoolSize_def b)
  from GetRandomAgent_nil_iff_empty [OF o, of 1] n sz
  obtain agent where r: "GetRandomAgent [''agent-2'', ''agent-1''] 1 bp = Some agent"
    and m: "agent \<in> ran (Agents bp)" by auto
  have "GetRandomAgent [''agent-2'', ''agent-1''] 1 bp = Some a1"
    by (simp add: GetRandomAgent_def b)
  with r m have two: "GetRandomAgent [''agent-2'', ''agent-1''] 1 bp = Some a1"
    and three: "a1 \<in> ran (Agents bp)" by simp_all
  from one two three show ?thesis
    unfolding Let_def a1_def a2_def bp_def by (intro conjI)
qed

end
